theory Spec2Isabelle
  imports Main "HOL-Library.Word" "HOL-Library.Sublist"
begin

section \<open>Strings\<close>

text \<open>
  A JavaScript string is a sequence of UTF-16 code units.  The literals of the source are
  written out as their code units; \<open>ascii\<close> embeds a string of ASCII characters.
\<close>

type_synonym jstring = "16 word list"

definition ascii :: "string \<Rightarrow> jstring" where
  "ascii s = map of_char s"

text \<open>\<^verbatim>\<open>String.prototype.includes\<close>: the argument occurs as a contiguous run.\<close>

definition str_includes :: "jstring \<Rightarrow> jstring \<Rightarrow> bool" where
  "str_includes s t = list_ex (\<lambda>i. take (length t) (drop i s) = t) [0..<Suc (length s)]"

section \<open>Data model (types.ts)\<close>

datatype QuizTab = Basic | Advanced

record QuizQuestion =
  question :: jstring
  choices :: "jstring list"
  answer_index :: int
  explanation :: jstring

record Problems =
  basic :: "QuizQuestion list"
  advanced :: "QuizQuestion list"

record ProcessedData =
  ok :: bool
  problems :: Problems
  summary_html :: jstring
  summary_url :: "jstring option"
  problems_url :: "jstring option"

text \<open>\<^verbatim>\<open>problems[activeTab]\<close>: the bucket of the tab.\<close>

definition problems_at :: "Problems \<Rightarrow> QuizTab \<Rightarrow> QuizQuestion list" where
  "problems_at ps tab = (case tab of Basic \<Rightarrow> basic ps | Advanced \<Rightarrow> advanced ps)"

section \<open>QuizItem (QuizSection.tsx, lines 16--117)\<close>

text \<open>
  The two \<^verbatim>\<open>useState\<close> cells of a mounted QuizItem.  \<open>selectedChoice\<close> is
  \<^verbatim>\<open>number | null\<close>; the only values ever stored are indices handed out by
  \<^verbatim>\<open>choices.map\<close>, hence naturals.
\<close>

record QuizItem_state =
  selectedChoice :: "nat option"
  showExplanation :: bool

definition QuizItem_init :: QuizItem_state where
  "QuizItem_init = \<lparr>selectedChoice = None, showExplanation = False\<rparr>"

definition handleChoiceSelect :: "QuizItem_state \<Rightarrow> nat \<Rightarrow> QuizItem_state" where
  "handleChoiceSelect st choiceIndex =
     st\<lparr>selectedChoice := Some choiceIndex, showExplanation := True\<rparr>"

text \<open>
  \<^verbatim>\<open>selectedChoice === question.answer_index\<close>: \<^verbatim>\<open>null\<close> is strictly equal to no number.
\<close>

definition isCorrect :: "QuizQuestion \<Rightarrow> QuizItem_state \<Rightarrow> bool" where
  "isCorrect q st =
     (case selectedChoice st of None \<Rightarrow> False | Some i \<Rightarrow> int i = answer_index q)"

text \<open>What one choice button of the rendered item shows (lines 38--84).\<close>

record choice_button =
  choice_index :: nat
  choice_text :: jstring
  isSelected :: bool
  isAnswer :: bool
  showResult :: bool
  result_correct :: bool
  disabled :: bool

definition choice_buttons :: "QuizQuestion \<Rightarrow> QuizItem_state \<Rightarrow> choice_button list" where
  "choice_buttons q st =
     map (\<lambda>(choiceIndex, choice).
            \<lparr>choice_index = choiceIndex,
             choice_text = choice,
             isSelected = (selectedChoice st = Some choiceIndex),
             isAnswer = (int choiceIndex = answer_index q),
             showResult = (showExplanation st \<and> selectedChoice st = Some choiceIndex),
             result_correct = isCorrect q st,
             disabled = showExplanation st\<rparr>)
         (enumerate 0 (choices q))"

text \<open>
  The panel under the choices (lines 88--112): absent until \<open>showExplanation\<close>, then the
  correctness indicator together with the explanation text.
\<close>

definition explanation_panel :: "QuizQuestion \<Rightarrow> QuizItem_state \<Rightarrow> (bool \<times> jstring) option" where
  "explanation_panel q st =
     (if showExplanation st then Some (isCorrect q st, explanation q) else None)"

text \<open>
  A user's click on the \<open>i\<close>-th choice button: the browser delivers it to
  \<^verbatim>\<open>onClick\<close> only when that button is rendered and not disabled.
\<close>

definition click_choice :: "QuizQuestion \<Rightarrow> QuizItem_state \<Rightarrow> nat \<Rightarrow> QuizItem_state" where
  "click_choice q st i =
     (if i < length (choice_buttons q st)
      then let b = choice_buttons q st ! i
           in if disabled b then st else handleChoiceSelect st (choice_index b)
      else st)"

section \<open>QuizSection (QuizSection.tsx, lines 119--166)\<close>

text \<open>
  The scrolling body of the section: the placeholder paragraph when the current bucket is
  empty, otherwise one QuizItem per question, keyed and numbered by its index.  Both
  buckets of \<open>Problems\<close> are arrays, and every array is truthy, so the
  \<^verbatim>\<open>|| []\<close> of line 120 never replaces one.
\<close>

datatype quiz_body = Placeholder | Items "(nat \<times> QuizQuestion) list"

definition QuizSection :: "Problems \<Rightarrow> QuizTab \<Rightarrow> quiz_body" where
  "QuizSection ps tab =
     (let currentProblems = problems_at ps tab
      in if length currentProblems = 0 then Placeholder
         else Items (enumerate 0 currentProblems))"

definition question_blocks :: "quiz_body \<Rightarrow> (nat \<times> QuizQuestion) list" where
  "question_blocks b = (case b of Placeholder \<Rightarrow> [] | Items xs \<Rightarrow> xs)"

section \<open>SummarySection (SummarySection.tsx)\<close>

record summary_view =
  source_link :: "jstring option"
  article :: "jstring option"

definition SummarySection :: "jstring \<Rightarrow> jstring option \<Rightarrow> summary_view" where
  "SummarySection summaryHtml summaryUrl =
     \<lparr>source_link = (case summaryUrl of None \<Rightarrow> None
                                      | Some u \<Rightarrow> if u = [] then None else Some u),
      article = (if summaryHtml = [] then None else Some summaryHtml)\<rparr>"

section \<open>UploadSection (UploadSection.tsx)\<close>

text \<open>A browser \<^verbatim>\<open>File\<close>: its name and its MIME type (\<^verbatim>\<open>file.type\<close>).\<close>

record File =
  file_name :: jstring
  file_type :: jstring

record UploadSection_state =
  dragActive :: bool
  selectedFile :: "File option"

definition UploadSection_init :: UploadSection_state where
  "UploadSection_init = \<lparr>dragActive = False, selectedFile = None\<rparr>"

text \<open>The three drag events the drop zone listens to (lines 60--62).\<close>

datatype drag_type = DragEnter | DragOver | DragLeave

definition handleDrag :: "UploadSection_state \<Rightarrow> drag_type \<Rightarrow> UploadSection_state" where
  "handleDrag st ty =
     (if ty = DragEnter \<or> ty = DragOver then st\<lparr>dragActive := True\<rparr>
      else if ty = DragLeave then st\<lparr>dragActive := False\<rparr>
      else st)"

text \<open>
  \<open>files\<close> is \<^verbatim>\<open>e.dataTransfer.files\<close>; an absent or empty list has no element 0.
\<close>

definition handleDrop :: "UploadSection_state \<Rightarrow> File list \<Rightarrow> UploadSection_state" where
  "handleDrop st files =
     (let st1 = st\<lparr>dragActive := False\<rparr>
      in case files of
           [] \<Rightarrow> st1
         | file # _ \<Rightarrow>
             if file_type file = ascii ''application/pdf''
             then st1\<lparr>selectedFile := Some file\<rparr>
             else st1)"

definition handleFileChange :: "UploadSection_state \<Rightarrow> File list \<Rightarrow> UploadSection_state" where
  "handleFileChange st files =
     (case files of
        [] \<Rightarrow> st
      | file # _ \<Rightarrow> st\<lparr>selectedFile := Some file\<rparr>)"

text \<open>
  \<open>handleSubmit\<close> either calls \<^verbatim>\<open>onUpload\<close> once or not at all; the result is the
  argument of that call.
\<close>

definition handleSubmit :: "UploadSection_state \<Rightarrow> bool \<Rightarrow> File option" where
  "handleSubmit st isProcessing_prop =
     (case selectedFile st of
        None \<Rightarrow> None
      | Some file \<Rightarrow> if \<not> isProcessing_prop then Some file else None)"

text \<open>The status banner (lines 118--137): absent for the empty status, else its style.\<close>

datatype banner_style = ErrorStyle | DoneStyle | NeutralStyle

definition status_banner :: "jstring \<Rightarrow> (banner_style \<times> jstring) option" where
  "status_banner status_prop =
     (if status_prop = [] then None
      else Some (if str_includes status_prop [0xc624, 0xb958] then ErrorStyle
                 else if str_includes status_prop [0xc644, 0xb8cc] then DoneStyle
                 else NeutralStyle,
                 status_prop))"

section \<open>App (App.tsx)\<close>

text \<open>
  The four \<^verbatim>\<open>useState\<close> cells of App, and what App has handed to the browser:
  the bodies of the \<^verbatim>\<open>fetch\<close> calls of line 22 whose promise has not settled, and the
  number of timers of line 36 that have not fired.
\<close>

record App_state =
  isProcessing :: bool
  status :: jstring
  data :: "ProcessedData option"
  activeTab :: QuizTab
  in_flight :: "File list"
  pending_timeouts :: nat

definition App_init :: App_state where
  "App_init = \<lparr>isProcessing = False, status = [], data = None, activeTab = Basic,
                in_flight = [], pending_timeouts = 0\<rparr>"

text \<open>The parsed response body: ProcessedData with the \<^verbatim>\<open>error\<close> string of a failure.\<close>

record ApiResult = ProcessedData +
  error :: "jstring option"

text \<open>A thrown value: an instance of \<^verbatim>\<open>Error\<close> with its message, or anything else.\<close>

datatype thrown = JsError jstring | NonError

text \<open>
  How the two awaited promises of lines 22 and 27 end: \<^verbatim>\<open>fetch\<close> rejects (network
  error), \<^verbatim>\<open>response.json()\<close> rejects (the body is not JSON), the body parses to
  \<^verbatim>\<open>null\<close> (reading \<^verbatim>\<open>result.ok\<close> then throws a TypeError, whose message is the
  engine's), or the body parses to any other value, read through its fields (a value
  without an \<^verbatim>\<open>ok\<close> or \<^verbatim>\<open>error\<close> field reads as \<open>ok\<close> false and no error string).
\<close>

datatype upload_outcome =
    FetchRejects thrown
  | JsonRejects thrown
  | JsonNull jstring
  | JsonResolves ApiResult

datatype 's completion = Normal 's | Throw thrown 's

text \<open>\<^verbatim>\<open>result.error || d\<close>: the absent and the empty string are falsy.\<close>

definition or_default :: "jstring option \<Rightarrow> jstring \<Rightarrow> jstring" where
  "or_default v d = (case v of None \<Rightarrow> d | Some s \<Rightarrow> if s = [] then d else s)"

definition msg_processing :: jstring where
  "msg_processing = ascii ''PDF '' @ [0xbd84, 0xc11d, 0x20, 0xbc0f, 0x20, 0xbb38, 0xc81c, 0x20,
     0xc0dd, 0xc131, 0x20, 0xc911, 0x2e, 0x2e, 0x2e]"

definition msg_done :: jstring where
  "msg_done = [0xc644, 0xb8cc, 0x21, 0x20, 0xc0dd, 0xc131, 0xb41c, 0x20, 0xbb38, 0xc81c, 0xc640,
     0x20, 0xc694, 0xc57d, 0xc744, 0x20, 0xd655, 0xc778, 0xd558, 0xc138, 0xc694, 0x2e]"

definition msg_failed :: jstring where
  "msg_failed = [0xcc98, 0xb9ac, 0x20, 0xc2e4, 0xd328]"

definition msg_unknown :: jstring where
  "msg_unknown = [0xc54c, 0x20, 0xc218, 0x20, 0xc5c6, 0xb294, 0x20, 0xc624, 0xb958]"

definition error_prefix :: jstring where
  "error_prefix = [0xc624, 0xb958, 0x3a, 0x20]"

text \<open>Lines 15--25: the synchronous part, up to the first \<^verbatim>\<open>await\<close>.\<close>

definition handleFileUpload_start :: "App_state \<Rightarrow> File \<Rightarrow> App_state" where
  "handleFileUpload_start st file =
     st\<lparr>isProcessing := True, status := msg_processing, in_flight := in_flight st @ [file]\<rparr>"

text \<open>Lines 22--36: the body of \<^verbatim>\<open>try\<close>, given how the awaited promises end.\<close>

definition try_block :: "App_state \<Rightarrow> upload_outcome \<Rightarrow> App_state completion" where
  "try_block st oc =
     (case oc of
        FetchRejects e \<Rightarrow> Throw e st
      | JsonRejects e \<Rightarrow> Throw e st
      | JsonNull m \<Rightarrow> Throw (JsError m) st
      | JsonResolves result \<Rightarrow>
          if \<not> ok result then Throw (JsError (or_default (error result) msg_failed)) st
          else Normal (st\<lparr>data := Some (ProcessedData.truncate result),
                          status := msg_done,
                          pending_timeouts := Suc (pending_timeouts st)\<rparr>))"

text \<open>Line 38.\<close>

definition catch_block :: "thrown \<Rightarrow> App_state \<Rightarrow> App_state completion" where
  "catch_block e st =
     Normal (st\<lparr>status := error_prefix @ (case e of JsError m \<Rightarrow> m | NonError \<Rightarrow> msg_unknown)\<rparr>)"

text \<open>Line 40.\<close>

definition finally_block :: "App_state \<Rightarrow> App_state" where
  "finally_block st = st\<lparr>isProcessing := False\<rparr>"

text \<open>
  \<^verbatim>\<open>try { ... } catch (e) { ... } finally { ... }\<close>: the handler runs on a throw of the
  body, the finaliser runs in every case, and a throw of the handler propagates.
\<close>

fun try_catch_finally ::
  "'s completion \<Rightarrow> (thrown \<Rightarrow> 's \<Rightarrow> 's completion) \<Rightarrow> ('s \<Rightarrow> 's) \<Rightarrow> 's completion" where
  "try_catch_finally (Normal s) h f = Normal (f s)"
| "try_catch_finally (Throw e s) h f =
     (case h e s of Normal s' \<Rightarrow> Normal (f s') | Throw e' s' \<Rightarrow> Throw e' (f s'))"

text \<open>Lines 21--41: the rest of \<open>handleFileUpload\<close>, run when the promises have settled.\<close>

definition handleFileUpload_settle :: "App_state \<Rightarrow> upload_outcome \<Rightarrow> App_state completion" where
  "handleFileUpload_settle st oc = try_catch_finally (try_block st oc) catch_block finally_block"

text \<open>The callback of the timer of line 36.\<close>

definition status_timeout :: "App_state \<Rightarrow> App_state" where
  "status_timeout st = st\<lparr>status := [], pending_timeouts := pending_timeouts st - 1\<rparr>"

text \<open>What App renders below the upload section (lines 89--104).\<close>

definition App_quiz :: "App_state \<Rightarrow> quiz_body option" where
  "App_quiz st = (case data st of None \<Rightarrow> None
                                | Some d \<Rightarrow> Some (QuizSection (problems d) (activeTab st)))"

definition App_summary :: "App_state \<Rightarrow> summary_view option" where
  "App_summary st = (case data st of None \<Rightarrow> None
                                   | Some d \<Rightarrow> Some (SummarySection (summary_html d) (summary_url d)))"

section \<open>The mounted view and its events\<close>

text \<open>
  The QuizSection element carries \<^verbatim>\<open>key={activeTab}\<close> (App.tsx, line 92) and each
  QuizItem \<^verbatim>\<open>key={index}\<close>.  A mounted QuizSection is therefore its key and the state
  of its items, by index.
\<close>

record quiz_mount =
  mount_key :: QuizTab
  items :: "QuizItem_state list"

text \<open>
  Reconciliation after App has rendered: no element without data; an element whose key
  differs from the mounted one replaces it, with every item mounted afresh; under an equal
  key the items keep their state by index, new indices are mounted afresh and surplus
  ones are unmounted.
\<close>

definition render_quiz :: "App_state \<Rightarrow> quiz_mount option \<Rightarrow> quiz_mount option" where
  "render_quiz a old =
     (case App_quiz a of
        None \<Rightarrow> None
      | Some body \<Rightarrow>
          let n = length (question_blocks body);
              fresh = \<lparr>mount_key = activeTab a, items = replicate n QuizItem_init\<rparr>
          in case old of
               None \<Rightarrow> Some fresh
             | Some m \<Rightarrow>
                 if mount_key m = activeTab a
                 then Some (m\<lparr>items := take n (items m) @
                                         replicate (n - length (items m)) QuizItem_init\<rparr>)
                 else Some fresh)"

record view =
  app :: App_state
  upload :: UploadSection_state
  quiz :: "quiz_mount option"

definition view_init :: view where
  "view_init = \<lparr>app = App_init, upload = UploadSection_init, quiz = None\<rparr>"

definition rerender :: "view \<Rightarrow> view" where
  "rerender v = v\<lparr>quiz := render_quiz (app v) (quiz v)\<rparr>"

datatype event =
    Drag drag_type
  | Drop "File list"
  | FileChange "File list"
  | Submit
  | Settle upload_outcome
  | Timeout
  | TabChange QuizTab
  | ChoiceClick nat nat

text \<open>
  One event of the single-threaded event loop, with the view rendered again before the
  next one.  The file input is disabled while \<open>isProcessing\<close> (line 71), so it delivers no
  change event then; the drop zone carries no such attribute (lines 54--64).  A submit is
  handed to \<open>handleSubmit\<close> as it is.  \<open>Settle\<close> ends the oldest pending request.  The tab
  buttons and the choice buttons exist only while the quiz is rendered.
\<close>

definition step :: "view \<Rightarrow> event \<Rightarrow> view" where
  "step v e =
     (case e of
        Drag ty \<Rightarrow> v\<lparr>upload := handleDrag (upload v) ty\<rparr>
      | Drop files \<Rightarrow> v\<lparr>upload := handleDrop (upload v) files\<rparr>
      | FileChange files \<Rightarrow>
          if isProcessing (app v) then v
          else v\<lparr>upload := handleFileChange (upload v) files\<rparr>
      | Submit \<Rightarrow>
          (case handleSubmit (upload v) (isProcessing (app v)) of
             None \<Rightarrow> v
           | Some file \<Rightarrow> v\<lparr>app := handleFileUpload_start (app v) file\<rparr>)
      | Settle oc \<Rightarrow>
          (case in_flight (app v) of
             [] \<Rightarrow> v
           | _ # rest \<Rightarrow>
               (case handleFileUpload_settle (app v) oc of
                  Normal a \<Rightarrow> rerender (v\<lparr>app := a\<lparr>in_flight := rest\<rparr>\<rparr>)
                | Throw _ a \<Rightarrow> rerender (v\<lparr>app := a\<lparr>in_flight := rest\<rparr>\<rparr>)))
      | Timeout \<Rightarrow>
          if pending_timeouts (app v) = 0 then v
          else v\<lparr>app := status_timeout (app v)\<rparr>
      | TabChange tab \<Rightarrow>
          (case App_quiz (app v) of
             None \<Rightarrow> v
           | Some _ \<Rightarrow> rerender (v\<lparr>app := (app v)\<lparr>activeTab := tab\<rparr>\<rparr>))
      | ChoiceClick qi ci \<Rightarrow>
          (case (App_quiz (app v), quiz v) of
             (Some body, Some m) \<Rightarrow>
               if qi < length (question_blocks body) \<and> qi < length (items m)
               then v\<lparr>quiz := Some (m\<lparr>items := (items m)
                         [qi := click_choice (snd (question_blocks body ! qi)) (items m ! qi) ci]\<rparr>)\<rparr>
               else v
           | _ \<Rightarrow> v))"

definition run :: "view \<Rightarrow> event list \<Rightarrow> view" where
  "run v es = foldl step v es"

section \<open>Predicates and example inputs\<close>

text \<open>An item shows its explanation exactly when a choice is stored.\<close>

definition answered_inv :: "QuizItem_state \<Rightarrow> bool" where
  "answered_inv st = (showExplanation st = (selectedChoice st \<noteq> None))"

text \<open>
  A failed upload: a rejected \<^verbatim>\<open>fetch\<close>, a body that is not JSON or parses to
  \<^verbatim>\<open>null\<close>, or a response whose \<open>ok\<close> is false.
\<close>

definition upload_failed :: "upload_outcome \<Rightarrow> bool" where
  "upload_failed oc = (case oc of JsonResolves r \<Rightarrow> \<not> ok r | _ \<Rightarrow> True)"

text \<open>One pending request while \<open>isProcessing\<close>, none otherwise.\<close>

definition single_flight :: "App_state \<Rightarrow> bool" where
  "single_flight a = (length (in_flight a) = (if isProcessing a then 1 else 0))"

text \<open>
  The mounted quiz agrees with what App renders: mounted exactly when rendered, under the
  key of the active tab, with one item state per question block.
\<close>

definition mounted_ok :: "view \<Rightarrow> bool" where
  "mounted_ok v =
     (case App_quiz (app v) of
        None \<Rightarrow> quiz v = None
      | Some body \<Rightarrow>
          (case quiz v of
             None \<Rightarrow> False
           | Some m \<Rightarrow> mount_key m = activeTab (app v) \<and>
                       length (items m) = length (question_blocks body)))"

text \<open>The example response of the specification, a failure response, and three files.\<close>

definition example_question :: QuizQuestion where
  "example_question =
     \<lparr>question = ascii ''2+2?'', choices = [ascii ''3'', ascii ''4''], answer_index = 1,
      explanation = ascii ''basic math''\<rparr>"

definition example_result :: ApiResult where
  "example_result =
     \<lparr>ok = True, problems = \<lparr>basic = [example_question], advanced = []\<rparr>,
      summary_html = ascii ''<p>Hi</p>'', summary_url = None, problems_url = None,
      error = None\<rparr>"

definition example_failure :: ApiResult where
  "example_failure =
     \<lparr>ok = False, problems = \<lparr>basic = [], advanced = []\<rparr>,
      summary_html = [], summary_url = None, problems_url = None,
      error = Some (ascii ''no text in PDF'')\<rparr>"

definition pdf_a :: File where
  "pdf_a = \<lparr>file_name = ascii ''a.pdf'', file_type = ascii ''application/pdf''\<rparr>"

definition pdf_b :: File where
  "pdf_b = \<lparr>file_name = ascii ''b.pdf'', file_type = ascii ''application/pdf''\<rparr>"

definition text_file :: File where
  "text_file = \<lparr>file_name = ascii ''notes.txt'', file_type = ascii ''text/plain''\<rparr>"

text \<open>A file is chosen and submitted; the request is pending.\<close>

definition uploading_session :: "event list" where
  "uploading_session = [FileChange [pdf_a], Submit]"

text \<open>
  The example response has arrived, the one basic question has been answered with choice
  1, and the user has moved to the advanced tab.
\<close>

definition answered_session :: "event list" where
  "answered_session =
     [FileChange [pdf_a], Submit, Settle (JsonResolves example_result), ChoiceClick 0 1,
      TabChange Advanced]"

text \<open>
  The example response has arrived, the basic question has been answered, and a second
  upload is pending.
\<close>

definition reupload_session :: "event list" where
  "reupload_session =
     [FileChange [pdf_a], Submit, Settle (JsonResolves example_result), ChoiceClick 0 1,
      Submit]"

section \<open>QuizItem: selection and feedback\<close>

lemma click_choice_eq:
  "click_choice q st i =
     (if i < length (choices q) \<and> \<not> showExplanation st then handleChoiceSelect st i else st)"
  by (simp add: click_choice_def choice_buttons_def Let_def nth_enumerate_eq)

lemma length_filter_fst:
  "length (filter (\<lambda>p. P (fst p)) ps) = length (filter P (map fst ps))"
  by (induction ps) auto

lemma selected_at_most_one: "length (filter isSelected (choice_buttons q st)) \<le> 1"
proof -
  let ?P = "\<lambda>i. selectedChoice st = Some i"
  let ?n = "length (choices q)"
  have "length (filter isSelected (choice_buttons q st))
        = length (filter (\<lambda>p. ?P (fst p)) (enumerate 0 (choices q)))"
    by (simp add: choice_buttons_def filter_map comp_def case_prod_unfold)
  also have "\<dots> = length (filter ?P [0..<?n])"
    using length_filter_fst[of ?P "enumerate 0 (choices q)"] by simp
  also have "\<dots> = card ({i. ?P i} \<inter> set [0..<?n])"
    by (rule distinct_length_filter) simp
  also have "\<dots> \<le> card {the (selectedChoice st)}"
    by (rule card_mono) auto
  finally show ?thesis by simp
qed

lemma answered_is_final:
  "showExplanation st \<Longrightarrow> foldl (click_choice q) st cs = st"
  by (induction cs) (simp_all add: click_choice_eq)

lemma click_choice_inv: "answered_inv st \<Longrightarrow> answered_inv (click_choice q st i)"
  by (simp add: click_choice_eq answered_inv_def handleChoiceSelect_def)

lemma clicks_inv: "answered_inv st \<Longrightarrow> answered_inv (foldl (click_choice q) st cs)"
  by (induction cs arbitrary: st) (simp_all add: click_choice_inv)

lemma init_inv: "answered_inv QuizItem_init"
  by (simp add: answered_inv_def QuizItem_init_def)

lemma filter_eq_upt: "filter (\<lambda>j. s = Some j) [0..<n] = (case s of None \<Rightarrow> [] | Some i \<Rightarrow> if i < n then [i] else [])"
  by (induction n) (auto split: option.splits)

lemma map_fst_filter_fst: "map fst (filter (\<lambda>p. P (fst p)) ps) = filter P (map fst ps)"
  by (induction ps) auto

lemma selected_indices:
  "map choice_index (filter isSelected (choice_buttons q st))
     = (case selectedChoice st of None \<Rightarrow> []
        | Some i \<Rightarrow> if i < length (choices q) then [i] else [])"
proof -
  let ?P = "\<lambda>j. selectedChoice st = Some j"
  have "map choice_index (filter isSelected (choice_buttons q st))
        = map fst (filter (\<lambda>p. ?P (fst p)) (enumerate 0 (choices q)))"
    by (simp add: choice_buttons_def filter_map comp_def case_prod_unfold)
  also have "\<dots> = filter ?P [0..<length (choices q)]"
    using map_fst_filter_fst[of ?P "enumerate 0 (choices q)"] by simp
  finally show ?thesis by (simp add: filter_eq_upt)
qed

lemma clicks_from_unanswered:
  "\<not> showExplanation st \<Longrightarrow>
     foldl (click_choice q) st cs
       = (case find (\<lambda>i. i < length (choices q)) cs of
            None \<Rightarrow> st | Some i \<Rightarrow> handleChoiceSelect st i)"
proof (induction cs)
  case Nil
  show ?case by simp
next
  case (Cons c cs)
  show ?case
  proof (cases "c < length (choices q)")
    case True
    have c: "click_choice q st c = handleChoiceSelect st c"
      using True Cons.prems by (simp add: click_choice_eq)
    have "showExplanation (handleChoiceSelect st c)" by (simp add: handleChoiceSelect_def)
    then have "foldl (click_choice q) (handleChoiceSelect st c) cs = handleChoiceSelect st c"
      by (rule answered_is_final)
    then show ?thesis using True by (simp add: c)
  next
    case False
    then show ?thesis using Cons by (simp add: click_choice_eq)
  qed
qed

lemma find_in_range: "find (\<lambda>i. i < n) cs = Some i \<Longrightarrow> i < n"
  by (induction cs) (auto split: if_splits)

text \<open>
  C1.  A call of the selection handler stores exactly the index it is given and makes the
  panel show the indicator \<open>that index = answer_index\<close>.  Whatever choices the user
  clicks within one mount of a QuizItem, the stored choice is the first click that hit a
  rendered choice (none before such a click), the rendered choices marked selected are
  that one choice and no other, and the panel shows the indicator for that choice together
  with the explanation.
\<close>

theorem quiz_item_single_selection:
  "selectedChoice (handleChoiceSelect st i) = Some i \<and>
   explanation_panel q (handleChoiceSelect st i) = Some (int i = answer_index q, explanation q) \<and>
   selectedChoice (foldl (click_choice q) QuizItem_init cs)
     = find (\<lambda>i. i < length (choices q)) cs \<and>
   map choice_index (filter isSelected (choice_buttons q (foldl (click_choice q) QuizItem_init cs)))
     = (case find (\<lambda>i. i < length (choices q)) cs of None \<Rightarrow> [] | Some i \<Rightarrow> [i]) \<and>
   length (filter isSelected (choice_buttons q (foldl (click_choice q) QuizItem_init cs))) \<le> 1 \<and>
   explanation_panel q (foldl (click_choice q) QuizItem_init cs)
     = (case find (\<lambda>i. i < length (choices q)) cs of
          None \<Rightarrow> None | Some i \<Rightarrow> Some (int i = answer_index q, explanation q))"
proof -
  let ?first = "find (\<lambda>i. i < length (choices q)) cs"
  let ?st = "foldl (click_choice q) QuizItem_init cs"
  have st: "?st = (case ?first of None \<Rightarrow> QuizItem_init
                    | Some i \<Rightarrow> handleChoiceSelect QuizItem_init i)"
    by (rule clicks_from_unanswered) (simp add: QuizItem_init_def)
  have handler: "selectedChoice (handleChoiceSelect s j) = Some j"
    "explanation_panel q (handleChoiceSelect s j) = Some (int j = answer_index q, explanation q)"
    for s j
    by (simp_all add: handleChoiceSelect_def explanation_panel_def isCorrect_def)
  have sel: "selectedChoice ?st = ?first"
    unfolding st by (simp add: handler QuizItem_init_def split: option.splits)
  have panel: "explanation_panel q ?st
     = (case ?first of None \<Rightarrow> None | Some i \<Rightarrow> Some (int i = answer_index q, explanation q))"
  proof (cases ?first)
    case None
    then show ?thesis unfolding st by (simp add: QuizItem_init_def explanation_panel_def)
  next
    case (Some i)
    then show ?thesis unfolding st by (simp add: handler)
  qed
  have idx: "map choice_index (filter isSelected (choice_buttons q ?st))
     = (case ?first of None \<Rightarrow> [] | Some i \<Rightarrow> [i])"
    unfolding selected_indices sel using find_in_range[of "length (choices q)" cs]
    by (simp split: option.splits)
  show ?thesis
    using handler sel panel idx selected_at_most_one[of q ?st] by simp
qed

theorem quiz_item_single_selection_witness:
  "foldl (click_choice example_question) QuizItem_init [5, 0, 1]
     = \<lparr>selectedChoice = Some 0, showExplanation = True\<rparr> \<and>
   map choice_index (filter isSelected
       (choice_buttons example_question (foldl (click_choice example_question) QuizItem_init [5, 0, 1])))
     = [0] \<and>
   explanation_panel example_question (foldl (click_choice example_question) QuizItem_init [5, 0, 1])
     = Some (False, ascii ''basic math'') \<and>
   explanation_panel example_question (foldl (click_choice example_question) QuizItem_init [1, 0])
     = Some (True, ascii ''basic math'')"
proof -
  have f: "find (\<lambda>i. i < length (choices example_question)) [5, 0, 1] = Some 0"
    "find (\<lambda>i. i < length (choices example_question)) [1, 0] = Some 1"
    by (simp_all add: example_question_def)
  have a: "answer_index example_question = 1"
    "explanation example_question = ascii ''basic math''"
    by (simp_all add: example_question_def)
  have s: "foldl (click_choice example_question) QuizItem_init [5, 0, 1]
     = \<lparr>selectedChoice = Some 0, showExplanation = True\<rparr>"
    by code_simp
  note t1 = quiz_item_single_selection[of QuizItem_init 0 example_question "[5, 0, 1]"]
  note t2 = quiz_item_single_selection[of QuizItem_init 0 example_question "[1, 0]"]
  have 1: "map choice_index (filter isSelected
       (choice_buttons example_question (foldl (click_choice example_question) QuizItem_init [5, 0, 1])))
     = [0]"
    using t1 unfolding f by simp
  have 2: "explanation_panel example_question
       (foldl (click_choice example_question) QuizItem_init [5, 0, 1])
     = Some (False, ascii ''basic math'')"
    using t1 unfolding f by (simp add: a)
  have 3: "explanation_panel example_question
       (foldl (click_choice example_question) QuizItem_init [1, 0])
     = Some (True, ascii ''basic math'')"
    using t2 unfolding f by (simp add: a)
  show ?thesis using s 1 2 3 by blast
qed

text \<open>
  C6.  The first click on a rendered choice of an unanswered item stores that choice and
  at once shows the explanation with the correctness indicator; before it nothing is
  shown, and no later clicks change the item.
\<close>

theorem quiz_item_answer_one_way:
  "i < length (choices q) \<Longrightarrow>
     explanation_panel q QuizItem_init = None \<and>
     click_choice q QuizItem_init i = \<lparr>selectedChoice = Some i, showExplanation = True\<rparr> \<and>
     explanation_panel q (click_choice q QuizItem_init i)
       = Some (int i = answer_index q, explanation q) \<and>
     foldl (click_choice q) (click_choice q QuizItem_init i) cs = click_choice q QuizItem_init i"
proof -
  assume i: "i < length (choices q)"
  have fire: "click_choice q QuizItem_init i = \<lparr>selectedChoice = Some i, showExplanation = True\<rparr>"
    using i by (simp add: click_choice_eq QuizItem_init_def handleChoiceSelect_def)
  have "foldl (click_choice q) (click_choice q QuizItem_init i) cs = click_choice q QuizItem_init i"
    by (rule answered_is_final) (simp add: fire)
  then show ?thesis
    using fire by (simp add: explanation_panel_def isCorrect_def QuizItem_init_def)
qed

theorem quiz_item_answer_one_way_witness:
  "(1::nat) < length (choices example_question) \<and>
   foldl (click_choice example_question) (click_choice example_question QuizItem_init 1) [0, 1, 0]
     = \<lparr>selectedChoice = Some 1, showExplanation = True\<rparr> \<and>
   explanation_panel example_question (click_choice example_question QuizItem_init 1)
     = Some (True, ascii ''basic math'')"
proof -
  have h: "(1::nat) < length (choices example_question)"
    by (simp add: example_question_def)
  have a: "answer_index example_question = 1"
    "explanation example_question = ascii ''basic math''"
    by (simp_all add: example_question_def)
  from quiz_item_answer_one_way[OF h, of "[0, 1, 0]"]
  have c: "click_choice example_question QuizItem_init 1
             = \<lparr>selectedChoice = Some 1, showExplanation = True\<rparr>"
    and p: "explanation_panel example_question (click_choice example_question QuizItem_init 1)
             = Some (int 1 = answer_index example_question, explanation example_question)"
    and f: "foldl (click_choice example_question)
              (click_choice example_question QuizItem_init 1) [0, 1, 0]
             = click_choice example_question QuizItem_init 1"
    by blast+
  have "explanation_panel example_question (click_choice example_question QuizItem_init 1)
          = Some (True, ascii ''basic math'')"
    unfolding p by (simp add: a)
  then show ?thesis using h c f by (simp only:)
qed

section \<open>QuizSection: rendered question blocks\<close>

text \<open>
  C8.  With a response stored, App renders the quiz section, and its question blocks are
  the questions of the active tab's bucket, one block each and in order; the empty bucket
  gives no block.
\<close>

theorem quiz_renders_all_questions:
  "data st = Some d \<Longrightarrow>
     \<exists>body. App_quiz st = Some body \<and>
            length (question_blocks body) = length (problems_at (problems d) (activeTab st)) \<and>
            map snd (question_blocks body) = problems_at (problems d) (activeTab st)"
  by (simp add: App_quiz_def QuizSection_def question_blocks_def Let_def)

theorem quiz_renders_all_questions_witness:
  "data (app (run view_init answered_session)) = Some (ProcessedData.truncate example_result) \<and>
   (\<exists>body. App_quiz (app (run view_init answered_session)) = Some body \<and>
           length (question_blocks body) = 0) \<and>
   (\<exists>body. App_quiz ((app (run view_init answered_session))\<lparr>activeTab := Basic\<rparr>) = Some body \<and>
           length (question_blocks body) = 1)"
proof -
  let ?st = "app (run view_init answered_session)"
  have h: "data ?st = Some (ProcessedData.truncate example_result)"
    by code_simp
  have t: "activeTab ?st = Advanced"
    by code_simp
  have n: "length (problems_at (problems (ProcessedData.truncate example_result)) Advanced) = 0"
    "length (problems_at (problems (ProcessedData.truncate example_result)) Basic) = 1"
    by code_simp+
  from quiz_renders_all_questions[OF h]
  have 1: "\<exists>body. App_quiz ?st = Some body \<and> length (question_blocks body) = 0"
    unfolding t n by blast
  have "data (?st\<lparr>activeTab := Basic\<rparr>) = Some (ProcessedData.truncate example_result)"
    using h by simp
  from quiz_renders_all_questions[OF this]
  have 2: "\<exists>body. App_quiz (?st\<lparr>activeTab := Basic\<rparr>) = Some body \<and>
                  length (question_blocks body) = 1"
    using n by auto
  show ?thesis using h 1 2 by blast
qed

section \<open>handleFileUpload: how an upload ends\<close>

lemma str_includes_append: "str_includes (p @ t @ s) t"
  unfolding str_includes_def list_ex_iff
  by (rule bexI[where x="length p"]) simp_all

lemma str_includes_suffix: "str_includes (p @ t) t"
  using str_includes_append[of p t "[]"] by simp

lemma str_includes_empty: "str_includes s []"
  using str_includes_append[of "[]" "[]" s] by simp

lemma str_includes_prefix: "str_includes (t @ s) t"
  using str_includes_append[of "[]" t s] by simp

lemma error_prefix_marker: "error_prefix = [0xc624, 0xb958] @ [0x3a, 0x20]"
  by (simp add: error_prefix_def)

lemma settle_not_ok:
  "\<not> ok r \<Longrightarrow> handleFileUpload_settle st (JsonResolves r)
     = Normal (st\<lparr>status := error_prefix @ or_default (error r) msg_failed, isProcessing := False\<rparr>)"
  by (simp add: handleFileUpload_settle_def try_block_def catch_block_def finally_block_def)

lemma settle_failed:
  "upload_failed oc \<Longrightarrow>
     \<exists>m. handleFileUpload_settle st oc
           = Normal (st\<lparr>status := error_prefix @ m, isProcessing := False\<rparr>)"
  by (cases oc)
     (auto simp: upload_failed_def handleFileUpload_settle_def try_block_def catch_block_def
        finally_block_def)

lemma settle_returns:
  "\<exists>a. handleFileUpload_settle st oc = Normal a \<and> \<not> isProcessing a"
  by (cases oc)
     (auto simp: handleFileUpload_settle_def try_block_def catch_block_def finally_block_def)

text \<open>
  C3.  When the response has \<open>ok\<close> false and carries an error string, the upload handler
  returns normally, and the status it leaves is the error prefix followed by that string
  (by the fallback text when the string is empty): the status starts with the prefix,
  contains the server's string, and is shown in the banner's error style.
\<close>

theorem failed_response_status_message:
  "\<not> ok r \<Longrightarrow> error r = Some e \<Longrightarrow>
     \<exists>st'. handleFileUpload_settle st (JsonResolves r) = Normal st' \<and>
           status st' = error_prefix @ (if e = [] then msg_failed else e) \<and>
           prefix error_prefix (status st') \<and>
           str_includes (status st') e \<and>
           status_banner (status st') = Some (ErrorStyle, status st')"
proof -
  assume r: "\<not> ok r" and e: "error r = Some e"
  let ?m = "if e = [] then msg_failed else e"
  let ?st' = "st\<lparr>status := error_prefix @ ?m, isProcessing := False\<rparr>"
  have 1: "handleFileUpload_settle st (JsonResolves r) = Normal ?st'"
    using r e by (simp add: settle_not_ok or_default_def)
  have 2: "status ?st' = error_prefix @ ?m" by simp
  have 3: "str_includes (error_prefix @ ?m) e"
    by (cases "e = []") (simp_all add: str_includes_empty str_includes_suffix)
  have 4: "str_includes (error_prefix @ ?m) [0xc624, 0xb958]"
    unfolding error_prefix_marker append_assoc by (rule str_includes_prefix)
  have 5: "error_prefix @ ?m \<noteq> []" by (simp add: error_prefix_def)
  have 6: "status_banner (error_prefix @ ?m) = Some (ErrorStyle, error_prefix @ ?m)"
    unfolding status_banner_def using 4 5 by simp
  show ?thesis using 1 2 3 6 by (intro exI[of _ ?st']) simp
qed

theorem failed_response_status_message_witness:
  "\<not> ok example_failure \<and> error example_failure = Some (ascii ''no text in PDF'') \<and>
   (\<exists>st'. handleFileUpload_settle App_init (JsonResolves example_failure) = Normal st' \<and>
          status st' = error_prefix @ ascii ''no text in PDF'' \<and>
          status_banner (status st') = Some (ErrorStyle, status st'))"
proof -
  have h1: "\<not> ok example_failure"
    by (simp add: example_failure_def)
  have h2: "error example_failure = Some (ascii ''no text in PDF'')"
    by (simp add: example_failure_def)
  have ne: "ascii ''no text in PDF'' \<noteq> []"
    by (simp add: ascii_def)
  have "\<exists>st'. handleFileUpload_settle App_init (JsonResolves example_failure) = Normal st' \<and>
           status st' = error_prefix @ ascii ''no text in PDF'' \<and>
           prefix error_prefix (status st') \<and>
           str_includes (status st') (ascii ''no text in PDF'') \<and>
           status_banner (status st') = Some (ErrorStyle, status st')"
    using failed_response_status_message[OF h1 h2, of App_init] by (simp add: ne)
  then show ?thesis using h1 h2 by blast
qed

text \<open>
  C10.  However the awaited promises end, the handler returns normally and leaves
  \<open>isProcessing\<close> false.
\<close>

theorem upload_always_clears_processing:
  "\<exists>st'. handleFileUpload_settle st oc = Normal st' \<and> \<not> isProcessing st'"
  by (rule settle_returns)

section \<open>The view: uploads in flight\<close>

lemma run_snoc: "run v (es @ [e]) = step (run v es) e"
  by (simp add: run_def)

lemma step_single_flight: "single_flight (app v) \<Longrightarrow> single_flight (app (step v e))"
proof (cases e)
  case (Settle oc)
  assume sf: "single_flight (app v)"
  obtain a where a: "handleFileUpload_settle (app v) oc = Normal a" "\<not> isProcessing a"
    using settle_returns by blast
  show ?thesis
  proof (cases "in_flight (app v)")
    case Nil
    then show ?thesis using sf Settle by (simp add: step_def)
  next
    case (Cons f rest)
    then have "rest = []" using sf by (simp add: single_flight_def split: if_splits)
    then show ?thesis using Settle Cons a
      by (simp add: step_def rerender_def single_flight_def)
  qed
next
  case Submit
  assume sf: "single_flight (app v)"
  then show ?thesis using Submit
    by (auto simp: step_def handleSubmit_def handleFileUpload_start_def single_flight_def
        split: option.splits if_splits)
qed (auto simp: step_def rerender_def single_flight_def status_timeout_def
       split: option.splits if_splits)

lemma run_single_flight: "single_flight (app (run view_init es))"
proof (induction es rule: rev_induct)
  case Nil
  show ?case by (simp add: run_def view_init_def App_init_def single_flight_def)
next
  case (snoc e es)
  then show ?case by (simp add: run_snoc step_single_flight)
qed

lemma submit_blocked: "isProcessing (app v) \<Longrightarrow> step v Submit = v"
  by (simp add: step_def handleSubmit_def split: option.splits)

text \<open>
  C4.  After any sequence of events at most one request is pending, and while
  \<open>isProcessing\<close> holds a submit leaves the whole view as it is: no second call of the
  upload handler, and nothing is kept of the submit for later.
\<close>

theorem single_upload_in_flight:
  "length (in_flight (app (run view_init es))) \<le> 1 \<and>
   (isProcessing (app (run view_init es)) \<longrightarrow>
      step (run view_init es) Submit = run view_init es)"
  using run_single_flight[of es] submit_blocked[of "run view_init es"]
  by (simp add: single_flight_def split: if_splits)

theorem single_upload_in_flight_witness:
  "isProcessing (app (run view_init uploading_session)) \<and>
   in_flight (app (run view_init uploading_session)) = [pdf_a] \<and>
   step (run view_init uploading_session) Submit = run view_init uploading_session"
proof -
  have h: "isProcessing (app (run view_init uploading_session))"
    by code_simp
  have q: "in_flight (app (run view_init uploading_session)) = [pdf_a]"
    by code_simp
  show ?thesis
    using h q single_upload_in_flight[of uploading_session] by blast
qed

section \<open>The view: the mounted quiz\<close>

lemma rerender_ok: "mounted_ok (rerender v)"
  by (auto simp: mounted_ok_def rerender_def render_quiz_def Let_def split: option.splits)

lemma step_mounted_ok: "mounted_ok v \<Longrightarrow> mounted_ok (step v e)"
proof (cases e)
  case (Settle oc)
  assume "mounted_ok v"
  then show ?thesis using Settle
    by (auto simp: step_def rerender_ok split: list.splits completion.splits)
next
  case (TabChange t)
  assume "mounted_ok v"
  then show ?thesis using TabChange
    by (auto simp: step_def rerender_ok split: option.splits)
next
  case Submit
  assume "mounted_ok v"
  then show ?thesis using Submit
    by (auto simp: step_def mounted_ok_def App_quiz_def handleFileUpload_start_def
        split: option.splits)
next
  case Timeout
  assume "mounted_ok v"
  then show ?thesis using Timeout
    by (auto simp: step_def mounted_ok_def App_quiz_def status_timeout_def
        split: option.splits)
qed (auto simp: step_def mounted_ok_def split: option.splits)

lemma run_mounted_ok: "mounted_ok (run view_init es)"
proof (induction es rule: rev_induct)
  case Nil
  show ?case by (simp add: run_def view_init_def App_init_def mounted_ok_def App_quiz_def)
next
  case (snoc e es)
  then show ?case by (simp add: run_snoc step_mounted_ok)
qed

lemma render_quiz_same:
  "mounted_ok v \<Longrightarrow> App_quiz a' = App_quiz (app v) \<Longrightarrow> activeTab a' = activeTab (app v) \<Longrightarrow>
     render_quiz a' (quiz v) = quiz v"
  by (auto simp: mounted_ok_def render_quiz_def Let_def split: option.splits)

lemma step_settle_failed_quiz:
  assumes "mounted_ok v" "upload_failed oc"
  shows "quiz (step v (Settle oc)) = quiz v"
proof (cases "in_flight (app v)")
  case Nil
  then show ?thesis by (simp add: step_def)
next
  case (Cons f rest)
  obtain m where m: "handleFileUpload_settle (app v) oc
      = Normal ((app v)\<lparr>status := error_prefix @ m, isProcessing := False\<rparr>)"
    using settle_failed[OF assms(2)] by blast
  let ?a = "(app v)\<lparr>status := error_prefix @ m, isProcessing := False, in_flight := rest\<rparr>"
  have "render_quiz ?a (quiz v) = quiz v"
    by (rule render_quiz_same[OF assms(1)]) (simp_all add: App_quiz_def split: option.splits)
  then show ?thesis using Cons m by (simp add: step_def rerender_def)
qed

lemma tab_switch_fresh:
  assumes ok: "mounted_ok v" and d: "data (app v) = Some d" and t: "tab \<noteq> activeTab (app v)"
  shows "step v (TabChange tab) =
           v\<lparr>app := (app v)\<lparr>activeTab := tab\<rparr>,
             quiz := Some \<lparr>mount_key = tab,
                           items = replicate (length (problems_at (problems d) tab)) QuizItem_init\<rparr>\<rparr>"
proof -
  obtain m where m: "quiz v = Some m" "mount_key m = activeTab (app v)"
    using ok d by (auto simp: mounted_ok_def App_quiz_def split: option.splits)
  have len: "length (question_blocks (QuizSection (problems d) tab))
             = length (problems_at (problems d) tab)"
    by (simp add: QuizSection_def question_blocks_def Let_def)
  show ?thesis using d t m len
    by (simp add: step_def rerender_def render_quiz_def App_quiz_def Let_def)
qed

text \<open>
  C7.  In a view reached by any sequence of events and showing a quiz, a change to the
  other tab makes that tab active and mounts the quiz section anew under the new key:
  one item per question of the new tab's bucket, each in its initial state (no choice
  stored, explanation hidden).
\<close>

theorem tab_switch_remounts_quiz:
  "tab \<noteq> activeTab (app (run view_init es)) \<Longrightarrow> data (app (run view_init es)) = Some d \<Longrightarrow>
     quiz (step (run view_init es) (TabChange tab)) =
       Some \<lparr>mount_key = tab,
             items = replicate (length (problems_at (problems d) tab)) QuizItem_init\<rparr> \<and>
     activeTab (app (step (run view_init es) (TabChange tab))) = tab"
  using tab_switch_fresh[OF run_mounted_ok, of es d tab] by simp

theorem tab_switch_remounts_quiz_witness:
  "Basic \<noteq> activeTab (app (run view_init answered_session)) \<and>
   data (app (run view_init answered_session)) = Some (ProcessedData.truncate example_result) \<and>
   quiz (run view_init (butlast answered_session)) =
     Some \<lparr>mount_key = Basic, items = [\<lparr>selectedChoice = Some 1, showExplanation = True\<rparr>]\<rparr> \<and>
   quiz (step (run view_init answered_session) (TabChange Basic)) =
     Some \<lparr>mount_key = Basic, items = [QuizItem_init]\<rparr>"
proof -
  have h1: "Basic \<noteq> activeTab (app (run view_init answered_session))"
    by code_simp
  have h2: "data (app (run view_init answered_session))
              = Some (ProcessedData.truncate example_result)"
    by code_simp
  have b: "quiz (run view_init (butlast answered_session)) =
     Some \<lparr>mount_key = Basic, items = [\<lparr>selectedChoice = Some 1, showExplanation = True\<rparr>]\<rparr>"
    by code_simp
  have n: "replicate (length (problems_at (problems (ProcessedData.truncate example_result)) Basic))
             QuizItem_init = [QuizItem_init]"
    by code_simp
  have "quiz (step (run view_init answered_session) (TabChange Basic)) =
          Some \<lparr>mount_key = Basic, items = [QuizItem_init]\<rparr>"
    using tab_switch_remounts_quiz[OF h1 h2] unfolding n by blast
  then show ?thesis using h1 h2 b by blast
qed

text \<open>
  C9.  A failed upload leaves the stored response as it was: neither the start of the
  handler nor its failure path writes \<open>data\<close>, so the quiz and the summary App renders are
  the same as before, and the mounted quiz keeps the answers already given.
\<close>

theorem failed_upload_keeps_data:
  "upload_failed oc \<Longrightarrow>
     data (handleFileUpload_start st f) = data st \<and>
     (\<exists>st'. handleFileUpload_settle st oc = Normal st' \<and>
            data st' = data st \<and> App_quiz st' = App_quiz st \<and> App_summary st' = App_summary st) \<and>
     quiz (step (run view_init es) (Settle oc)) = quiz (run view_init es)"
proof -
  assume failed: "upload_failed oc"
  then obtain m where
    "handleFileUpload_settle st oc = Normal (st\<lparr>status := error_prefix @ m, isProcessing := False\<rparr>)"
    using settle_failed by blast
  then have "data (handleFileUpload_start st f) = data st \<and>
     (\<exists>st'. handleFileUpload_settle st oc = Normal st' \<and>
            data st' = data st \<and> App_quiz st' = App_quiz st \<and> App_summary st' = App_summary st)"
    by (simp add: handleFileUpload_start_def App_quiz_def App_summary_def split: option.splits)
  then show ?thesis
    using step_settle_failed_quiz[OF run_mounted_ok failed, of es] by simp
qed

theorem failed_upload_keeps_data_witness:
  "upload_failed (JsonResolves example_failure) \<and>
   isProcessing (app (run view_init reupload_session)) \<and>
   (\<exists>st'. handleFileUpload_settle (app (run view_init reupload_session))
            (JsonResolves example_failure) = Normal st' \<and>
          data st' = Some (ProcessedData.truncate example_result)) \<and>
   quiz (step (run view_init reupload_session) (Settle (JsonResolves example_failure))) =
     Some \<lparr>mount_key = Basic, items = [\<lparr>selectedChoice = Some 1, showExplanation = True\<rparr>]\<rparr>"
proof -
  have h: "upload_failed (JsonResolves example_failure)"
    by (simp add: upload_failed_def example_failure_def)
  have p: "isProcessing (app (run view_init reupload_session))"
    by code_simp
  have d: "data (app (run view_init reupload_session))
             = Some (ProcessedData.truncate example_result)"
    by code_simp
  have q: "quiz (run view_init reupload_session) =
     Some \<lparr>mount_key = Basic, items = [\<lparr>selectedChoice = Some 1, showExplanation = True\<rparr>]\<rparr>"
    by code_simp
  show ?thesis
    using h p failed_upload_keeps_data[OF h, of "app (run view_init reupload_session)" pdf_a
        reupload_session]
    unfolding d q by blast
qed

section \<open>UploadSection: which files are taken, and when\<close>

text \<open>
  The drop path does reject: a drop whose first file is not of type application/pdf leaves
  the selected file, App's state and the mounted quiz as they were, and clears the drag
  highlight.
\<close>

lemma non_pdf_drop_ignored:
  "file_type file0 \<noteq> ascii ''application/pdf'' \<Longrightarrow>
     step v (Drop (file0 # rest)) = v\<lparr>upload := (upload v)\<lparr>dragActive := False\<rparr>\<rparr> \<and>
     selectedFile (upload (step v (Drop (file0 # rest)))) = selectedFile (upload v)"
  by (simp add: step_def handleDrop_def)

text \<open>
  C2, the code at the failing input.  A text file that is dropped is not taken, but the
  same file delivered by the change event of the file input becomes the selected file,
  and a submit then uploads it.
\<close>

theorem non_pdf_file_dialog_accepted:
  "file_type text_file \<noteq> ascii ''application/pdf'' \<and>
   selectedFile (upload view_init) = None \<and>
   selectedFile (upload (step view_init (Drop [text_file]))) = None \<and>
   selectedFile (upload (step view_init (FileChange [text_file]))) = Some text_file \<and>
   in_flight (app (run view_init [FileChange [text_file], Submit])) = [text_file]"
  by (simp add: run_def step_def view_init_def App_init_def UploadSection_init_def
      handleFileChange_def handleDrop_def handleSubmit_def handleFileUpload_start_def
      text_file_def ascii_def)

text \<open>
  C5, the code at the failing input.  While the upload of \<open>a.pdf\<close> is pending, a drop of
  \<open>b.pdf\<close> replaces the selected file, and a drag over the zone switches the highlight on.
\<close>

theorem drop_during_upload_replaces_file:
  "isProcessing (app (run view_init uploading_session)) \<and>
   upload (run view_init uploading_session) = \<lparr>dragActive = False, selectedFile = Some pdf_a\<rparr> \<and>
   upload (step (run view_init uploading_session) (Drop [pdf_b]))
     = \<lparr>dragActive = False, selectedFile = Some pdf_b\<rparr> \<and>
   upload (step (run view_init uploading_session) (Drag DragOver))
     = \<lparr>dragActive = True, selectedFile = Some pdf_a\<rparr> \<and>
   pdf_a \<noteq> pdf_b"
  by (simp add: run_def uploading_session_def step_def view_init_def App_init_def
      UploadSection_init_def handleFileChange_def handleSubmit_def handleFileUpload_start_def
      handleDrop_def handleDrag_def pdf_a_def pdf_b_def ascii_def)

end
